theory Spec2Isabelle
  imports Complex_Main
begin

section \<open>Data model\<close>

text \<open>
  Altfolio keeps two collections in a document store: users and investments.
  Object ids are the 24-digit hexadecimal text of the store's identifiers. Amounts
  are JavaScript numbers; the model computes with exact rationals, and a quotient
  with a zero divisor (a non-finite number in JavaScript) is made visible as
  \<open>None\<close>. Dates are milliseconds since the epoch. Text is a list of characters
  with codes below 256, each one UTF-16 code unit, so that the length the request
  validation counts and the length the schema counts are the same number.
\<close>

type_synonym oid = string

datatype role = Admin | Viewer

record user =
  user_id :: oid
  email :: string
  name :: string
  role :: role
  userActive :: bool

text \<open>The projection \<open>populate('owners', 'name email')\<close> puts in place of an owner id.\<close>

record owner_ref =
  ref_id :: oid
  ref_name :: string
  ref_email :: string

text \<open>
  The investment schema of \<open>models/Investment.js\<close> with the two timestamps. The
  owners are ids in a stored document and user projections in a populated one.
\<close>

record 'o investment =
  inv_id :: oid
  assetName :: string
  assetType :: string
  investedAmount :: rat
  currentValue :: rat
  investmentDate :: int
  owners :: "'o list"
  description :: "string option"
  notesText :: "string option"
  isActive :: bool
  createdAt :: int
  updatedAt :: int

type_synonym doc = "oid investment"

section \<open>Derived metrics (schema virtuals)\<close>

definition js_div :: "rat \<Rightarrow> rat \<Rightarrow> rat option" where
  "js_div a b = (if b = 0 then None else Some (a / b))"

definition roi :: "'o investment \<Rightarrow> rat option" where
  "roi i =
     (if investedAmount i = 0 then Some 0
      else map_option (\<lambda>q. q * 100) (js_div (currentValue i - investedAmount i) (investedAmount i)))"

definition absoluteGain :: "'o investment \<Rightarrow> rat" where
  "absoluteGain i = currentValue i - investedAmount i"

section \<open>Requests, errors and validation\<close>

text \<open>
  A request body as \<open>express.json()\<close> delivers it: every field is either absent
  (\<open>undefined\<close>, here \<open>None\<close>) or a value of its JSON type. The investment date
  arrives as text: text that \<open>isISO8601\<close> accepts and the schema casts to a date
  (the instant it denotes), text that \<open>isISO8601\<close> accepts and the schema cannot
  cast (a week date such as \<open>2023-W01\<close>), or text that \<open>isISO8601\<close> rejects.
\<close>

datatype date_input = IsoDate int | IsoNoDate | NotIsoDate

text \<open>
  The \<open>:id\<close> segment of a path as the store's cast to an object id reads it: the
  id it denotes, or text that is no object id, on which the lookup throws.
\<close>

datatype path_id = IdText oid | NotAnId string

record body =
  b_assetName :: "string option"
  b_assetType :: "string option"
  b_investedAmount :: "rat option"
  b_currentValue :: "rat option"
  b_investmentDate :: "date_input option"
  b_description :: "string option"
  b_notes :: "string option"
  b_owners :: "string list option"

text \<open>
  The failures of the investment routes, named as in the specification. Each one
  is a status code and message of the source: 404 \<open>Investment not found.\<close>; 403
  \<open>Access denied. You do not own this investment.\<close>; 400 \<open>Investment amount cannot
  exceed $1,000,000 for non-admin users.\<close>; 400 \<open>Validation failed\<close> with the
  rejected fields; 400 \<open>One or more specified owners do not exist or are inactive.\<close>;
  403 \<open>You can only create investments where you are an owner.\<close>; 403 \<open>You cannot
  remove yourself as an owner of this investment.\<close>; 401 for a request without a
  valid token of an active user; 500 \<open>Internal server error.\<close> from the \<open>catch\<close>
  block of a handler or middleware. A rejected field is named by its path, an
  array element by the array and its index (\<open>owners[2]\<close>).
\<close>

datatype field_path = Field string | Element string nat

datatype error =
    NotFound
  | Forbidden
  | InvestmentCapExceeded
  | ValidationError "field_path list"
  | InvalidOwners
  | ForbiddenOwnerSet
  | ForbiddenOwnerRemoval
  | Unauthorized
  | InternalError

text \<open>The characters \<open>\\s\<close> matches, among those with codes below 256.\<close>

definition is_space :: "char \<Rightarrow> bool" where
  "is_space c =
     (c \<in> set [CHR '' '', CHR 0x09, CHR 0x0A, CHR 0x0B, CHR 0x0C, CHR 0x0D, CHR 0xA0])"

definition trim :: "string \<Rightarrow> string" where
  "trim s = rev (dropWhile is_space (rev (dropWhile is_space s)))"

definition isHexDigit :: "char \<Rightarrow> bool" where
  "isHexDigit c = (c \<in> set ''0123456789abcdefABCDEF'')"

text \<open>
  \<open>isHexadecimal\<close> of the validation library: one or more hexadecimal digits
  after an optional prefix \<open>0x\<close> or \<open>0h\<close> in either case; \<open>isMongoId\<close> asks for
  that and a length of 24.
\<close>

definition isHexadecimal :: "string \<Rightarrow> bool" where
  "isHexadecimal s =
     ((s \<noteq> [] \<and> list_all isHexDigit s) \<or>
      (take 2 s \<in> set [''0x'', ''0X'', ''0h'', ''0H''] \<and> drop 2 s \<noteq> [] \<and>
       list_all isHexDigit (drop 2 s)))"

definition isMongoId :: "string \<Rightarrow> bool" where
  "isMongoId s = (isHexadecimal s \<and> length s = 24)"

text \<open>
  The object mapper's cast of text to an object id: text of 24 hexadecimal digits
  denotes an id, whose text is their lower-case form; on any other text the
  query throws.
\<close>

definition hexLower :: "char \<Rightarrow> char" where
  "hexLower c =
     (if c = CHR ''A'' then CHR ''a'' else if c = CHR ''B'' then CHR ''b''
      else if c = CHR ''C'' then CHR ''c'' else if c = CHR ''D'' then CHR ''d''
      else if c = CHR ''E'' then CHR ''e'' else if c = CHR ''F'' then CHR ''f'' else c)"

definition castObjectId :: "string \<Rightarrow> oid option" where
  "castObjectId s =
     (if length s = 24 \<and> list_all isHexDigit s then Some (map hexLower s) else None)"

definition castObjectIds :: "string list \<Rightarrow> oid list option" where
  "castObjectIds os = those (map castObjectId os)"

text \<open>The \<open>:id\<close> segment \<open>req.params.id\<close> as the cast reads it.\<close>

definition param_id :: "string \<Rightarrow> path_id" where
  "param_id s = (case castObjectId s of None \<Rightarrow> NotAnId s | Some i \<Rightarrow> IdText i)"

definition assetTypes :: "string list" where
  "assetTypes = [''Startup'', ''Crypto Fund'', ''Farmland'', ''Collectible'', ''Other'']"

definition isFloat_in :: "rat \<Rightarrow> rat \<Rightarrow> rat option \<Rightarrow> bool" where
  "isFloat_in lo hi v = (case v of None \<Rightarrow> False | Some x \<Rightarrow> lo \<le> x \<and> x \<le> hi)"

definition optional_max :: "nat \<Rightarrow> string option \<Rightarrow> bool" where
  "optional_max n v = (case v of None \<Rightarrow> True | Some s \<Rightarrow> length s \<le> n)"

text \<open>The check of \<open>owners.*\<close>: one error for each element that is no \<open>isMongoId\<close>.\<close>

fun owner_errors :: "nat \<Rightarrow> string list \<Rightarrow> field_path list" where
  "owner_errors i [] = []"
| "owner_errors i (s # ss) =
     (if isMongoId s then [] else [Element ''owners'' i]) @ owner_errors (Suc i) ss"

text \<open>
  The chain \<open>investmentValidation\<close>: one check per field, in the order of the
  array; the result lists the paths whose check failed. An absent required
  field is validated as the empty text and fails.
\<close>

definition investmentValidation :: "body \<Rightarrow> field_path list" where
  "investmentValidation b =
     (if (case b_assetName b of None \<Rightarrow> False
          | Some s \<Rightarrow> 1 \<le> length (trim s) \<and> length (trim s) \<le> 100)
      then [] else [Field ''assetName'']) @
     (if (case b_assetType b of None \<Rightarrow> False | Some t \<Rightarrow> t \<in> set assetTypes)
      then [] else [Field ''assetType'']) @
     (if isFloat_in 0 1000000000 (b_investedAmount b) then [] else [Field ''investedAmount'']) @
     (if isFloat_in 0 1000000000 (b_currentValue b) then [] else [Field ''currentValue'']) @
     (if (case b_investmentDate b of None \<Rightarrow> True | Some (IsoDate _) \<Rightarrow> True
          | Some IsoNoDate \<Rightarrow> True | Some NotIsoDate \<Rightarrow> False)
      then [] else [Field ''investmentDate'']) @
     (if optional_max 500 (b_description b) then [] else [Field ''description'']) @
     (if optional_max 1000 (b_notes b) then [] else [Field ''notes'']) @
     (if (case b_owners b of None \<Rightarrow> False | Some os \<Rightarrow> 1 \<le> length os)
      then [] else [Field ''owners'']) @
     (case b_owners b of None \<Rightarrow> [] | Some os \<Rightarrow> owner_errors 0 os)"

section \<open>Access policy (middleware)\<close>

definition findById :: "oid \<Rightarrow> doc list \<Rightarrow> doc option" where
  "findById iid invs = find (\<lambda>d. inv_id d = iid) invs"

text \<open>
  \<open>canAccessInvestment\<close>: the document is looked up first (the lookup throws on
  text that is no object id, which the \<open>catch\<close> block answers with 500; 404 when
  there is no document); then an admin passes, and anyone else passes only as
  one of the owners.
\<close>

definition canAccessInvestment :: "doc list \<Rightarrow> user \<Rightarrow> path_id \<Rightarrow> error + doc" where
  "canAccessInvestment invs u pid =
     (case pid of
        NotAnId _ \<Rightarrow> Inl InternalError
      | IdText iid \<Rightarrow>
          (case findById iid invs of
             None \<Rightarrow> Inl NotFound
           | Some d \<Rightarrow>
               if role u = Admin then Inr d
               else if user_id u \<notin> set (owners d) then Inl Forbidden
               else Inr d))"

text \<open>
  \<open>validateInvestmentAmount\<close>: an absent amount compares false with the cap and
  falls through to the field validation.
\<close>

definition validateInvestmentAmount :: "user \<Rightarrow> body \<Rightarrow> error + unit" where
  "validateInvestmentAmount u b =
     (if role u \<noteq> Admin \<and> (case b_investedAmount b of None \<Rightarrow> False | Some a \<Rightarrow> a > 1000000)
      then Inl InvestmentCapExceeded else Inr ())"

definition canUserModify :: "doc \<Rightarrow> oid \<Rightarrow> role \<Rightarrow> bool" where
  "canUserModify d userId userRole = (if userRole = Admin then True else userId \<in> set (owners d))"

section \<open>Store queries\<close>

text \<open>
  \<open>populate('owners', 'name email')\<close> replaces each owner id by the id, name and
  email of the user it refers to; an id without a user document is dropped from
  the array.
\<close>

definition owner_doc :: "user list \<Rightarrow> oid \<Rightarrow> owner_ref option" where
  "owner_doc us oid' =
     map_option (\<lambda>u. \<lparr>ref_id = user_id u, ref_name = name u, ref_email = email u\<rparr>)
       (find (\<lambda>u. user_id u = oid') us)"

definition populate :: "user list \<Rightarrow> doc \<Rightarrow> owner_ref investment" where
  "populate us d =
     \<lparr>inv_id = inv_id d, assetName = assetName d, assetType = assetType d,
      investedAmount = investedAmount d, currentValue = currentValue d,
      investmentDate = investmentDate d,
      owners = List.map_filter (owner_doc us) (owners d),
      description = description d, notesText = notesText d, isActive = isActive d,
      createdAt = createdAt d, updatedAt = updatedAt d\<rparr>"

text \<open>
  \<open>sort({ key: -1 })\<close>: descending by the key. The order among equal keys is the
  order of the input.
\<close>

fun insert_desc :: "('a \<Rightarrow> 'k::linorder) \<Rightarrow> 'a \<Rightarrow> 'a list \<Rightarrow> 'a list" where
  "insert_desc f x [] = [x]"
| "insert_desc f x (y # ys) = (if f y \<le> f x then x # y # ys else y # insert_desc f x ys)"

fun sort_desc :: "('a \<Rightarrow> 'k::linorder) \<Rightarrow> 'a list \<Rightarrow> 'a list" where
  "sort_desc f [] = []"
| "sort_desc f (x # xs) = insert_desc f x (sort_desc f xs)"

text \<open>
  \<open>findByIdAndUpdate(id, update, { new: true })\<close>: the first document with the id
  is rewritten in place and returned; without one, the result is null and the
  collection is unchanged.
\<close>

fun findByIdAndUpdate :: "oid \<Rightarrow> (doc \<Rightarrow> doc) \<Rightarrow> doc list \<Rightarrow> doc option \<times> doc list" where
  "findByIdAndUpdate iid f [] = (None, [])"
| "findByIdAndUpdate iid f (d # ds) =
     (if inv_id d = iid then (Some (f d), f d # ds)
      else (case findByIdAndUpdate iid f ds of (r, ds') \<Rightarrow> (r, d # ds')))"

section \<open>Investment routes\<close>

text \<open>\<open>GET /api/investments\<close>: the query, the sort and the population.\<close>

definition list_query :: "user \<Rightarrow> doc \<Rightarrow> bool" where
  "list_query u d = (isActive d \<and> (if role u \<noteq> Admin then user_id u \<in> set (owners d) else True))"

definition list_investments :: "user list \<Rightarrow> doc list \<Rightarrow> user \<Rightarrow> owner_ref investment list" where
  "list_investments us invs u =
     map (populate us) (sort_desc investmentDate (filter (list_query u) invs))"

text \<open>\<open>GET /api/investments/:id\<close>.\<close>

definition get_investment ::
  "user list \<Rightarrow> doc list \<Rightarrow> user \<Rightarrow> path_id \<Rightarrow> error + owner_ref investment" where
  "get_investment us invs u pid =
     (case canAccessInvestment invs u pid of
        Inl e \<Rightarrow> Inl e
      | Inr _ \<Rightarrow>
          (case pid of
             NotAnId _ \<Rightarrow> Inl InternalError
           | IdText iid \<Rightarrow>
               (case findById iid invs of
                  None \<Rightarrow> Inl NotFound
                | Some d \<Rightarrow> Inr (populate us d))))"

text \<open>
  The owner lookup shared by \<open>POST\<close> and \<open>PUT\<close>: \<open>User.find\<close> casts the proposed
  owners to object ids and returns the active users whose id is among them; the
  handler compares the number of users found with the number of owners proposed.
\<close>

definition ownerUsers :: "user list \<Rightarrow> oid list \<Rightarrow> user list" where
  "ownerUsers us ids = filter (\<lambda>u. user_id u \<in> set ids \<and> userActive u) us"

text \<open>
  The date a handler stores: the clock for an absent date, the instant of a date
  the schema can cast, and no date (the write throws) otherwise.
\<close>

definition stored_date :: "date_input option \<Rightarrow> int \<Rightarrow> int option" where
  "stored_date v now =
     (case v of None \<Rightarrow> Some now | Some (IsoDate t) \<Rightarrow> Some t | Some IsoNoDate \<Rightarrow> None
      | Some NotIsoDate \<Rightarrow> None)"

text \<open>
  \<open>POST /api/investments\<close>. The middleware runs in the order cap, field
  validation, handler. The handler looks the owners up (500 when one of them does
  not cast), compares the text of the proposed owners with the text of the
  actor's id, and saves the document, in which the owners are object ids (500
  when the date does not cast). \<open>nid\<close> is the id generated for the new document
  and \<open>now\<close> the clock. The response carries the new document as read back from
  the store.
\<close>

definition create_investment ::
  "user list \<Rightarrow> doc list \<Rightarrow> user \<Rightarrow> body \<Rightarrow> oid \<Rightarrow> int
     \<Rightarrow> error + (owner_ref investment option \<times> doc list)" where
  "create_investment us invs u b nid now =
     (case validateInvestmentAmount u b of
        Inl e \<Rightarrow> Inl e
      | Inr _ \<Rightarrow>
          if investmentValidation b \<noteq> [] then Inl (ValidationError (investmentValidation b))
          else
            (case (b_assetName b, b_assetType b, b_investedAmount b, b_currentValue b, b_owners b) of
               (Some an, Some ty, Some ia, Some cv, Some os) \<Rightarrow>
                 (case castObjectIds os of
                    None \<Rightarrow> Inl InternalError
                  | Some ids \<Rightarrow>
                      if length (ownerUsers us ids) \<noteq> length os then Inl InvalidOwners
                      else if role u \<noteq> Admin \<and> user_id u \<notin> set os then Inl ForbiddenOwnerSet
                      else
                        (case stored_date (b_investmentDate b) now of
                           None \<Rightarrow> Inl InternalError
                         | Some t \<Rightarrow>
                             let investment =
                                   \<lparr>inv_id = nid, assetName = trim an, assetType = ty,
                                    investedAmount = ia, currentValue = cv,
                                    investmentDate = t, owners = ids,
                                    description = map_option trim (b_description b),
                                    notesText = map_option trim (b_notes b),
                                    isActive = True, createdAt = now, updatedAt = now\<rparr>;
                                 invs' = invs @ [investment]
                             in Inr (map_option (populate us) (findById nid invs'), invs')))
             | _ \<Rightarrow> Inl (ValidationError (investmentValidation b))))"

text \<open>
  \<open>PUT /api/investments/:id\<close>. The middleware runs in the order access, cap,
  field validation, handler. The handler checks the owners as \<open>POST\<close> does. The
  update document names eight fields; a key whose value is \<open>undefined\<close> (an
  absent description or notes) is left out of the update by the object mapper, an
  absent date is replaced by the clock, and a date that does not cast makes the
  update throw (500).
\<close>

definition apply_update ::
  "string \<Rightarrow> string \<Rightarrow> rat \<Rightarrow> rat \<Rightarrow> int \<Rightarrow> body \<Rightarrow> oid list \<Rightarrow> int \<Rightarrow> doc \<Rightarrow> doc" where
  "apply_update an ty ia cv t b ids now d =
     d\<lparr>assetName := trim an, assetType := ty, investedAmount := ia, currentValue := cv,
       investmentDate := t,
       description := (case b_description b of None \<Rightarrow> description d | Some s \<Rightarrow> Some (trim s)),
       notesText := (case b_notes b of None \<Rightarrow> notesText d | Some s \<Rightarrow> Some (trim s)),
       owners := ids, updatedAt := now\<rparr>"

definition update_investment ::
  "user list \<Rightarrow> doc list \<Rightarrow> user \<Rightarrow> path_id \<Rightarrow> body \<Rightarrow> int
     \<Rightarrow> error + (owner_ref investment option \<times> doc list)" where
  "update_investment us invs u pid b now =
     (case canAccessInvestment invs u pid of
        Inl e \<Rightarrow> Inl e
      | Inr _ \<Rightarrow>
          (case validateInvestmentAmount u b of
             Inl e \<Rightarrow> Inl e
           | Inr _ \<Rightarrow>
               if investmentValidation b \<noteq> [] then Inl (ValidationError (investmentValidation b))
               else
                 (case (b_assetName b, b_assetType b, b_investedAmount b, b_currentValue b, b_owners b) of
                    (Some an, Some ty, Some ia, Some cv, Some os) \<Rightarrow>
                      (case castObjectIds os of
                         None \<Rightarrow> Inl InternalError
                       | Some ids \<Rightarrow>
                           if length (ownerUsers us ids) \<noteq> length os then Inl InvalidOwners
                           else if role u \<noteq> Admin \<and> user_id u \<notin> set os
                           then Inl ForbiddenOwnerRemoval
                           else
                             (case (stored_date (b_investmentDate b) now, pid) of
                                (Some t, IdText iid) \<Rightarrow>
                                  (case findByIdAndUpdate iid
                                          (apply_update an ty ia cv t b ids now) invs of
                                     (updatedInvestment, invs') \<Rightarrow>
                                       Inr (map_option (populate us) updatedInvestment, invs'))
                              | _ \<Rightarrow> Inl InternalError))
                  | _ \<Rightarrow> Inl (ValidationError (investmentValidation b)))))"

text \<open>\<open>DELETE /api/investments/:id\<close>: the soft delete.\<close>

definition soft_delete :: "doc list \<Rightarrow> user \<Rightarrow> path_id \<Rightarrow> int \<Rightarrow> error + doc list" where
  "soft_delete invs u pid now =
     (case canAccessInvestment invs u pid of
        Inl e \<Rightarrow> Inl e
      | Inr _ \<Rightarrow>
          (case pid of
             NotAnId _ \<Rightarrow> Inl InternalError
           | IdText iid \<Rightarrow>
               Inr (snd (findByIdAndUpdate iid
                          (\<lambda>d. d\<lparr>isActive := False, updatedAt := now\<rparr>) invs))))"

section \<open>Aggregation (model statics)\<close>

text \<open>
  The \<open>$match\<close> stage of both statics: active documents, and with a user id only
  those that list it among the owners.
\<close>

definition matchStage :: "oid option \<Rightarrow> doc \<Rightarrow> bool" where
  "matchStage userId d =
     (isActive d \<and> (case userId of None \<Rightarrow> True | Some x \<Rightarrow> x \<in> set (owners d)))"

record group_sums =
  s_totalInvested :: rat
  s_totalCurrentValue :: rat
  s_totalGain :: rat
  s_investmentCount :: nat

record totals =
  totalInvested :: rat
  totalCurrentValue :: rat
  totalGain :: rat
  totalRoi :: rat
  investmentCount :: nat

text \<open>
  \<open>$group\<close> with \<open>_id: null\<close>: one result document over all matched documents, and
  no result document when nothing matched.
\<close>

definition group_null :: "'o investment list \<Rightarrow> group_sums list" where
  "group_null ds =
     (if ds = [] then []
      else [\<lparr>s_totalInvested = sum_list (map investedAmount ds),
             s_totalCurrentValue = sum_list (map currentValue ds),
             s_totalGain = sum_list (map (\<lambda>d. currentValue d - investedAmount d) ds),
             s_investmentCount = length ds\<rparr>])"

definition getPortfolioTotals :: "doc list \<Rightarrow> oid option \<Rightarrow> totals" where
  "getPortfolioTotals invs userId =
     (case group_null (filter (matchStage userId) invs) of
        [] \<Rightarrow> \<lparr>totalInvested = 0, totalCurrentValue = 0, totalGain = 0, totalRoi = 0,
               investmentCount = 0\<rparr>
      | t # _ \<Rightarrow>
          \<lparr>totalInvested = s_totalInvested t, totalCurrentValue = s_totalCurrentValue t,
           totalGain = s_totalGain t,
           totalRoi = (if s_totalInvested t > 0 then s_totalGain t / s_totalInvested t * 100 else 0),
           investmentCount = s_investmentCount t\<rparr>)"

record allocation =
  a_id :: string
  a_totalInvested :: rat
  a_totalCurrentValue :: rat
  a_count :: nat

text \<open>
  Grouping by asset type: a document is added to the entry of its type, and a
  type seen for the first time opens a new entry after the existing ones. The
  dashboard builds the same entries in an object keyed by type, opening an entry
  with zeros before it adds the document to it.
\<close>

fun group_add :: "'o investment \<Rightarrow> allocation list \<Rightarrow> allocation list" where
  "group_add d [] =
     [\<lparr>a_id = assetType d, a_totalInvested = investedAmount d,
       a_totalCurrentValue = currentValue d, a_count = 1\<rparr>]"
| "group_add d (g # gs) =
     (if a_id g = assetType d
      then g\<lparr>a_totalInvested := a_totalInvested g + investedAmount d,
             a_totalCurrentValue := a_totalCurrentValue g + currentValue d,
             a_count := a_count g + 1\<rparr> # gs
      else g # group_add d gs)"

definition group_by_type :: "'o investment list \<Rightarrow> allocation list" where
  "group_by_type ds = foldl (\<lambda>gs d. group_add d gs) [] ds"

definition getAllocationByType :: "doc list \<Rightarrow> oid option \<Rightarrow> allocation list" where
  "getAllocationByType invs userId =
     sort_desc a_totalCurrentValue (group_by_type (filter (matchStage userId) invs))"

text \<open>\<open>GET /api/investments/portfolio/summary\<close>.\<close>

definition portfolio_summary :: "doc list \<Rightarrow> user \<Rightarrow> totals \<times> allocation list" where
  "portfolio_summary invs u =
     (let userId = (if role u = Admin then None else Some (user_id u))
      in (getPortfolioTotals invs userId, getAllocationByType invs userId))"

section \<open>Dashboard route\<close>

text \<open>
  \<open>authenticateToken\<close>: \<open>tok\<close> is the user id a valid token decodes to, or \<open>None\<close>
  for a missing, malformed or expired token. The user must exist and be active.
\<close>

definition authenticateToken :: "user list \<Rightarrow> oid option \<Rightarrow> error + user" where
  "authenticateToken us tok =
     (case tok of
        None \<Rightarrow> Inl Unauthorized
      | Some x \<Rightarrow>
          (case find (\<lambda>u. user_id u = x) us of
             None \<Rightarrow> Inl Unauthorized
           | Some u \<Rightarrow> if \<not> userActive u then Inl Unauthorized else Inr u))"

text \<open>
  \<open>GET /api/dashboard\<close> (\<open>routes/dashboard.js\<close>): the summary is accumulated over
  the fetched documents, the allocation is the list of the entries in the order
  of their keys, which is the order in which the types were first met.
\<close>

definition dashboard_summary :: "'o investment list \<Rightarrow> totals" where
  "dashboard_summary investments =
     (let summary =
            foldl (\<lambda>s i. s\<lparr>totalInvested := totalInvested s + investedAmount i,
                           totalCurrentValue := totalCurrentValue s + currentValue i,
                           totalGain := totalGain s + absoluteGain i\<rparr>)
              \<lparr>totalInvested = 0, totalCurrentValue = 0, totalGain = 0, totalRoi = 0,
               investmentCount = length investments\<rparr>
              investments
      in if totalInvested summary > 0
         then summary\<lparr>totalRoi := totalGain summary / totalInvested summary * 100\<rparr>
         else summary)"

definition dashboard_handler ::
  "user list \<Rightarrow> doc list \<Rightarrow> user \<Rightarrow> totals \<times> allocation list \<times> owner_ref investment list" where
  "dashboard_handler us invs u =
     (let investments = map (populate us) (filter isActive invs)
      in (dashboard_summary investments, group_by_type investments, investments))"

definition dashboard ::
  "user list \<Rightarrow> doc list \<Rightarrow> oid option
     \<Rightarrow> error + (totals \<times> allocation list \<times> owner_ref investment list)" where
  "dashboard us invs tok =
     (case authenticateToken us tok of
        Inl e \<Rightarrow> Inl e
      | Inr u \<Rightarrow> Inr (dashboard_handler us invs u))"

section \<open>Request sequences\<close>

text \<open>
  The three writing requests, each with its actor, and the store after a request:
  a failed request leaves the store as it was.
\<close>

datatype request =
    Create user body oid int
  | Update user path_id body int
  | Delete user path_id int

fun step :: "user list \<Rightarrow> doc list \<Rightarrow> request \<Rightarrow> doc list" where
  "step us invs (Create u b nid now) =
     (case create_investment us invs u b nid now of Inl _ \<Rightarrow> invs | Inr (_, invs') \<Rightarrow> invs')"
| "step us invs (Update u pid b now) =
     (case update_investment us invs u pid b now of Inl _ \<Rightarrow> invs | Inr (_, invs') \<Rightarrow> invs')"
| "step us invs (Delete u pid now) =
     (case soft_delete invs u pid now of Inl _ \<Rightarrow> invs | Inr invs' \<Rightarrow> invs')"

definition run :: "user list \<Rightarrow> doc list \<Rightarrow> request list \<Rightarrow> doc list" where
  "run us invs rs = foldl (step us) invs rs"

fun creates :: "request \<Rightarrow> oid option" where
  "creates (Create u b nid now) = Some nid"
| "creates (Update u pid b now) = None"
| "creates (Delete u pid now) = None"

text \<open>No active document of the store carries the id \<open>iid\<close>.\<close>

definition hidden :: "oid \<Rightarrow> doc list \<Rightarrow> bool" where
  "hidden iid invs = list_all (\<lambda>d. inv_id d \<noteq> iid \<or> \<not> isActive d) invs"

section \<open>Sample data\<close>

text \<open>
  The two users and the three investments of the repository's dashboard test, and
  a further viewer who owns nothing.
\<close>

definition adminUser :: user where
  "adminUser = \<lparr>user_id = ''aaaaaaaaaaaaaaaaaaaaaaaa'', email = ''admin@example.com'',
     name = ''Admin User'', role = Admin, userActive = True\<rparr>"

definition viewerUser :: user where
  "viewerUser = \<lparr>user_id = ''bbbbbbbbbbbbbbbbbbbbbbbb'', email = ''viewer@example.com'',
     name = ''Viewer User'', role = Viewer, userActive = True\<rparr>"

definition startupA :: doc where
  "startupA = \<lparr>inv_id = ''000000000000000000000001'', assetName = ''Startup A'',
     assetType = ''Startup'', investedAmount = 100000, currentValue = 120000,
     investmentDate = 1672531200000, owners = [user_id adminUser],
     description = Some ''Test startup'', notesText = None, isActive = True,
     createdAt = 1700000000000, updatedAt = 1700000000000\<rparr>"

definition cryptoB :: doc where
  "cryptoB = \<lparr>inv_id = ''000000000000000000000002'', assetName = ''Crypto Fund B'',
     assetType = ''Crypto Fund'', investedAmount = 50000, currentValue = 45000,
     investmentDate = 1675209600000, owners = [user_id viewerUser],
     description = Some ''Test crypto fund'', notesText = None, isActive = True,
     createdAt = 1700000000000, updatedAt = 1700000000000\<rparr>"

definition farmlandC :: doc where
  "farmlandC = \<lparr>inv_id = ''000000000000000000000003'', assetName = ''Farmland C'',
     assetType = ''Farmland'', investedAmount = 200000, currentValue = 220000,
     investmentDate = 1677628800000, owners = [user_id adminUser, user_id viewerUser],
     description = Some ''Test farmland'', notesText = None, isActive = True,
     createdAt = 1700000000000, updatedAt = 1700000000000\<rparr>"

definition sampleUsers :: "user list" where
  "sampleUsers = [adminUser, viewerUser]"

definition sampleInvestments :: "doc list" where
  "sampleInvestments = [startupA, cryptoB, farmlandC]"

definition outsiderUser :: user where
  "outsiderUser = \<lparr>user_id = ''cccccccccccccccccccccccc'', email = ''guest@example.com'',
     name = ''Guest User'', role = Viewer, userActive = True\<rparr>"

definition threeUsers :: "user list" where
  "threeUsers = [adminUser, viewerUser, outsiderUser]"

text \<open>
  Request bodies: a complete one, the same with an invested amount of 1,000,001,
  the partial body the repository's update test sends, a body beyond the global
  bound, the large investment of the creation test with the admin as the only
  owner, the complete body with the admin alone and with both users as owners,
  and the complete body without a date.
\<close>

definition validBody :: body where
  "validBody = \<lparr>b_assetName = Some ''New Investment'', b_assetType = Some ''Startup'',
     b_investedAmount = Some 100000, b_currentValue = Some 110000,
     b_investmentDate = Some (IsoDate 1672531200000),
     b_description = Some ''Test investment'', b_notes = None,
     b_owners = Some [user_id viewerUser]\<rparr>"

definition largeBody :: body where
  "largeBody = validBody\<lparr>b_investedAmount := Some 1000001\<rparr>"

definition updateData :: body where
  "updateData = \<lparr>b_assetName = Some ''Updated Investment'', b_assetType = None,
     b_investedAmount = None, b_currentValue = Some 120000, b_investmentDate = None,
     b_description = None, b_notes = None, b_owners = None\<rparr>"

definition hugeBody :: body where
  "hugeBody = validBody\<lparr>b_investedAmount := Some 1000000001\<rparr>"

definition foreignLargeBody :: body where
  "foreignLargeBody = validBody\<lparr>b_investedAmount := Some 1500000,
     b_currentValue := Some 1600000, b_owners := Some [user_id adminUser]\<rparr>"

definition foreignBody :: body where
  "foreignBody = validBody\<lparr>b_owners := Some [user_id adminUser]\<rparr>"

definition sharedBody :: body where
  "sharedBody = validBody\<lparr>b_owners := Some [user_id viewerUser, user_id adminUser]\<rparr>"

definition noDateBody :: body where
  "noDateBody = validBody\<lparr>b_investmentDate := None, b_owners := Some [user_id adminUser]\<rparr>"

text \<open>
  The complete body with the viewer's id in upper case as the only owner, and
  with a week date.
\<close>

definition upperBody :: body where
  "upperBody = validBody\<lparr>b_owners := Some [''BBBBBBBBBBBBBBBBBBBBBBBB'']\<rparr>"

definition weekDateBody :: body where
  "weekDateBody = largeBody\<lparr>b_investmentDate := Some IsoNoDate\<rparr>"

section \<open>Reference aggregates\<close>

text \<open>
  The entry the specification asks of \<open>allocationByType\<close> for one asset type: the
  sums of invested amount and current value and the number of the investments of
  that type.
\<close>

definition type_entry :: "string \<Rightarrow> 'o investment list \<Rightarrow> allocation" where
  "type_entry t ds =
     \<lparr>a_id = t,
      a_totalInvested = sum_list (map investedAmount (filter (\<lambda>d. assetType d = t) ds)),
      a_totalCurrentValue = sum_list (map currentValue (filter (\<lambda>d. assetType d = t) ds)),
      a_count = length (filter (\<lambda>d. assetType d = t) ds)\<rparr>"

text \<open>
  The store the specification expects after a soft delete of the investment
  \<open>iid\<close>: that document is marked inactive and its update time is set, every
  other document and every other field is left as it was.
\<close>

definition mark_deleted :: "oid \<Rightarrow> int \<Rightarrow> doc list \<Rightarrow> doc list" where
  "mark_deleted iid now invs =
     map (\<lambda>d. if inv_id d = iid then d\<lparr>isActive := False, updatedAt := now\<rparr> else d) invs"

section \<open>Properties\<close>

text \<open>
  C2. The derived metrics of every investment follow the documented formulas:
  \<open>absoluteGain\<close> is current value minus invested amount, \<open>roi\<close> is exactly 0 for a
  zero invested amount and the percentage gain otherwise, and the quotient is never
  taken with a zero divisor (the result is never \<open>None\<close>).
\<close>

theorem metrics_formulas:
  "absoluteGain i = currentValue i - investedAmount i \<and>
   roi i \<noteq> None \<and>
   roi i = Some (if investedAmount i = 0 then 0
                 else (currentValue i - investedAmount i) / investedAmount i * 100)"
  by (simp add: roi_def absoluteGain_def js_div_def)

subsection \<open>Sorting, population and lookup\<close>

lemma set_insert_desc: "set (insert_desc f x xs) = insert x (set xs)"
  by (induction xs) auto

lemma set_sort_desc: "set (sort_desc f xs) = set xs"
  by (induction xs) (auto simp: set_insert_desc)

lemma sorted_insert_desc:
  "sorted_wrt (\<lambda>a b. f b \<le> f a) xs \<Longrightarrow> sorted_wrt (\<lambda>a b. f b \<le> f a) (insert_desc f x xs)"
  by (induction xs) (auto simp: set_insert_desc)

lemma sorted_sort_desc: "sorted_wrt (\<lambda>a b. f b \<le> f a) (sort_desc f xs)"
  by (induction xs) (auto simp: sorted_insert_desc)

lemma populate_fields:
  "inv_id (populate us d) = inv_id d"
  "isActive (populate us d) = isActive d"
  "investmentDate (populate us d) = investmentDate d"
  "investedAmount (populate us d) = investedAmount d"
  "currentValue (populate us d) = currentValue d"
  "assetType (populate us d) = assetType d"
  "assetName (populate us d) = assetName d"
  "description (populate us d) = description d"
  "notesText (populate us d) = notesText d"
  "createdAt (populate us d) = createdAt d"
  "updatedAt (populate us d) = updatedAt d"
  by (simp_all add: populate_def)

lemma find_user_id: "find (\<lambda>u. user_id u = x) us = Some u \<Longrightarrow> user_id u = x"
  by (induction us) (auto split: if_splits)


lemma find_user_mem: "find (\<lambda>u. user_id u = x) us = Some u \<Longrightarrow> u \<in> set us"
  by (induction us) (auto split: if_splits)

lemma owner_doc_Some:
  assumes "owner_doc us x = Some r"
  shows "ref_id r = x" and "x \<in> user_id ` set us"
proof -
  from assms obtain u where u: "find (\<lambda>u. user_id u = x) us = Some u"
    and r: "r = \<lparr>ref_id = user_id u, ref_name = name u, ref_email = email u\<rparr>"
    by (auto simp: owner_doc_def)
  from u have "user_id u = x" "u \<in> set us"
    by (rule find_user_id, rule find_user_mem)
  then show "ref_id r = x" and "x \<in> user_id ` set us"
    using r by auto
qed

lemma owner_doc_ex:
  assumes "x \<in> user_id ` set us"
  shows "\<exists>r. owner_doc us x = Some r"
proof -
  from assms have "find (\<lambda>u. user_id u = x) us \<noteq> None"
    by (auto simp: find_None_iff)
  then show ?thesis by (auto simp: owner_doc_def)
qed

lemma set_map_filter_iff:
  "y \<in> set (List.map_filter f xs) \<longleftrightarrow> (\<exists>x \<in> set xs. f x = Some y)"
  by (induction xs) (auto split: option.splits)

lemma ref_ids_populate:
  "ref_id ` set (owners (populate us d)) = {x \<in> set (owners d). x \<in> user_id ` set us}"
proof (rule set_eqI, rule iffI)
  fix x assume "x \<in> ref_id ` set (owners (populate us d))"
  then obtain r y where "y \<in> set (owners d)" "owner_doc us y = Some r" "x = ref_id r"
    by (auto simp: populate_def set_map_filter_iff)
  then show "x \<in> {x \<in> set (owners d). x \<in> user_id ` set us}"
    using owner_doc_Some [of us y r] by simp
next
  fix x assume "x \<in> {x \<in> set (owners d). x \<in> user_id ` set us}"
  then have x: "x \<in> set (owners d)" "x \<in> user_id ` set us" by simp_all
  then obtain r where r: "owner_doc us x = Some r" using owner_doc_ex by blast
  then have "r \<in> set (owners (populate us d))" using x(1)
    by (auto simp: populate_def set_map_filter_iff)
  moreover have "ref_id r = x" using r by (rule owner_doc_Some)
  ultimately show "x \<in> ref_id ` set (owners (populate us d))" by force
qed

lemmas sample_defs = sampleUsers_def sampleInvestments_def adminUser_def viewerUser_def
  startupA_def cryptoB_def farmlandC_def

subsection \<open>Listing\<close>

text \<open>
  C1. For a viewer, every investment returned by the listing is active, is the
  population of a stored active document that names the viewer among its owners,
  and (the viewer being a user of the store, as authentication guarantees) still
  shows the viewer's id among its populated owners. For every actor the listing
  is ordered by investment date, latest first.
\<close>

theorem list_visible_sorted:
  "(role u = Viewer \<longrightarrow>
      (\<forall>i \<in> set (list_investments us invs u).
         isActive i \<and>
         (\<exists>d \<in> set invs. i = populate us d \<and> isActive d \<and> user_id u \<in> set (owners d)) \<and>
         (user_id u \<in> user_id ` set us \<longrightarrow> user_id u \<in> ref_id ` set (owners i)))) \<and>
   sorted_wrt (\<lambda>a b. investmentDate b \<le> investmentDate a) (list_investments us invs u)"
proof (intro conjI impI ballI)
  fix i assume v: "role u = Viewer" and i: "i \<in> set (list_investments us invs u)"
  from i obtain d where d: "d \<in> set invs" "list_query u d" "i = populate us d"
    by (auto simp: list_investments_def set_sort_desc)
  from d v have a: "isActive d" "user_id u \<in> set (owners d)"
    by (auto simp: list_query_def)
  show "isActive i" using d a by (simp add: populate_fields)
  show "\<exists>d \<in> set invs. i = populate us d \<and> isActive d \<and> user_id u \<in> set (owners d)"
    using d a by blast
  assume "user_id u \<in> user_id ` set us"
  then show "user_id u \<in> ref_id ` set (owners i)"
    using a d unfolding d(3) ref_ids_populate by simp
next
  have "sorted_wrt (\<lambda>a b. investmentDate b \<le> investmentDate a)
          (sort_desc investmentDate (filter (list_query u) invs))"
    by (rule sorted_sort_desc)
  then show "sorted_wrt (\<lambda>a b. investmentDate b \<le> investmentDate a) (list_investments us invs u)"
    by (simp add: list_investments_def sorted_wrt_map populate_fields)
qed

theorem list_visible_sorted_witness:
  "role viewerUser = Viewer \<and> user_id viewerUser \<in> user_id ` set sampleUsers \<and>
   map inv_id (list_investments sampleUsers sampleInvestments viewerUser) =
     [''000000000000000000000003'', ''000000000000000000000002''] \<and>
   map (\<lambda>i. (isActive i, user_id viewerUser \<in> ref_id ` set (owners i)))
     (list_investments sampleUsers sampleInvestments viewerUser) = [(True, True), (True, True)] \<and>
   sorted_wrt (\<lambda>a b. investmentDate b \<le> investmentDate a)
     (list_investments sampleUsers sampleInvestments viewerUser)"
  using list_visible_sorted [of viewerUser sampleUsers sampleInvestments]
  by (simp add: list_investments_def list_query_def populate_def owner_doc_def sample_defs)

subsection \<open>Portfolio totals\<close>

lemma sum_list_investedAmount_nonneg:
  "\<forall>d \<in> set ds. 0 \<le> investedAmount d \<Longrightarrow> 0 \<le> sum_list (map investedAmount ds)"
  by (rule sum_list_nonneg) auto

text \<open>
  C3. With the matched documents (active, and owned by the given user when one is
  given) as the input set, and invested amounts within the schema's lower bound,
  \<open>getPortfolioTotals\<close> returns the sums of invested amount, current value and
  gain over the set, the size of the set, and a total return that is 0 for a zero
  total invested and the percentage gain otherwise. The empty set gives the
  all-zero result.
\<close>

theorem portfolio_totals_sums:
  fixes invs :: "doc list" and userId :: "oid option"
  assumes nonneg: "\<forall>d \<in> set invs. 0 \<le> investedAmount d"
  defines "vis \<equiv> filter (matchStage userId) invs"
  defines "r \<equiv> getPortfolioTotals invs userId"
  shows "totalInvested r = sum_list (map investedAmount vis) \<and>
         totalCurrentValue r = sum_list (map currentValue vis) \<and>
         totalGain r = sum_list (map (\<lambda>d. currentValue d - investedAmount d) vis) \<and>
         investmentCount r = length vis \<and>
         totalRoi r = (if totalInvested r = 0 then 0 else totalGain r / totalInvested r * 100) \<and>
         (vis = [] \<longrightarrow> r = \<lparr>totalInvested = 0, totalCurrentValue = 0, totalGain = 0,
                                totalRoi = 0, investmentCount = 0\<rparr>)"
proof (cases "vis = []")
  case True
  then show ?thesis
    by (simp add: r_def vis_def getPortfolioTotals_def group_null_def)
next
  case False
  have "0 \<le> sum_list (map investedAmount vis)"
    using nonneg by (intro sum_list_investedAmount_nonneg) (simp add: vis_def)
  then have "sum_list (map investedAmount vis) > 0 \<longleftrightarrow> sum_list (map investedAmount vis) \<noteq> 0"
    by auto
  with False show ?thesis
    unfolding r_def getPortfolioTotals_def group_null_def vis_def [symmetric]
    by simp
qed

theorem portfolio_totals_sums_witness:
  "list_all (\<lambda>d. 0 \<le> investedAmount d) sampleInvestments \<and>
   getPortfolioTotals sampleInvestments None =
     \<lparr>totalInvested = 350000, totalCurrentValue = 385000, totalGain = 35000,
      totalRoi = 10, investmentCount = 3\<rparr> \<and>
   totalRoi (getPortfolioTotals sampleInvestments None) =
     totalGain (getPortfolioTotals sampleInvestments None) /
       totalInvested (getPortfolioTotals sampleInvestments None) * 100 \<and>
   getPortfolioTotals [] None =
     \<lparr>totalInvested = 0, totalCurrentValue = 0, totalGain = 0, totalRoi = 0, investmentCount = 0\<rparr>"
  using portfolio_totals_sums [of sampleInvestments None] portfolio_totals_sums [of "[]" None]
  by (simp add: getPortfolioTotals_def group_null_def matchStage_def sample_defs)

subsection \<open>Allocation by asset type\<close>

text \<open>
  Grouping yields exactly one entry per asset type present, and each entry carries
  the sums and the count of its type. \<open>getAllocationByType\<close> then sorts the
  entries by total current value, largest first; the dashboard route returns the
  same entries unsorted.
\<close>

lemma ids_group_add:
  "a_id ` set (group_add d gs) = insert (assetType d) (a_id ` set gs)"
  by (induction gs) auto

lemma distinct_group_add:
  "distinct (map a_id gs) \<Longrightarrow> distinct (map a_id (group_add d gs))"
  by (induction gs) (auto simp: ids_group_add)

lemma a_id_type_entry: "a_id (type_entry t ds) = t"
  by (simp add: type_entry_def)

lemma type_entry_snoc_other:
  "t \<noteq> assetType d \<Longrightarrow> type_entry t (ds @ [d]) = type_entry t ds"
  by (auto simp: type_entry_def)

lemma type_entry_snoc_same:
  "type_entry (assetType d) (ds @ [d]) =
     \<lparr>a_id = assetType d,
      a_totalInvested = a_totalInvested (type_entry (assetType d) ds) + investedAmount d,
      a_totalCurrentValue = a_totalCurrentValue (type_entry (assetType d) ds) + currentValue d,
      a_count = a_count (type_entry (assetType d) ds) + 1\<rparr>"
  by (simp add: type_entry_def)

lemma type_entry_absent:
  "t \<notin> assetType ` set ds \<Longrightarrow>
     type_entry t ds = \<lparr>a_id = t, a_totalInvested = 0, a_totalCurrentValue = 0, a_count = 0\<rparr>"
proof -
  assume "t \<notin> assetType ` set ds"
  then have "filter (\<lambda>x. assetType x = t) ds = []"
    by (induction ds) auto
  then show ?thesis by (simp add: type_entry_def)
qed

lemma group_add_entries:
  assumes "\<forall>g \<in> set gs. g = type_entry (a_id g) ds"
    and "distinct (map a_id gs)"
    and "assetType d \<in> assetType ` set ds \<longrightarrow> assetType d \<in> a_id ` set gs"
  shows "\<forall>g \<in> set (group_add d gs). g = type_entry (a_id g) (ds @ [d])"
  using assms
proof (induction gs)
  case Nil
  then have "assetType d \<notin> assetType ` set ds" by simp
  then show ?case
    by (simp add: type_entry_snoc_same type_entry_absent)
next
  case (Cons g gs)
  have g: "g = type_entry (a_id g) ds" using Cons.prems(1) by simp
  show ?case
  proof (cases "a_id g = assetType d")
    case True
    have "g\<lparr>a_totalInvested := a_totalInvested g + investedAmount d,
            a_totalCurrentValue := a_totalCurrentValue g + currentValue d,
            a_count := a_count g + 1\<rparr> = type_entry (assetType d) (ds @ [d])"
      by (subst (1 2 3 4) g) (simp add: type_entry_snoc_same True type_entry_def)
    moreover have "\<forall>h \<in> set gs. h = type_entry (a_id h) (ds @ [d])"
    proof
      fix h assume h: "h \<in> set gs"
      then have "h = type_entry (a_id h) ds" using Cons.prems(1) by simp
      moreover have "a_id h \<in> a_id ` set gs" using h by (rule imageI)
      then have "a_id h \<noteq> assetType d" using Cons.prems(2) True by auto
      ultimately show "h = type_entry (a_id h) (ds @ [d])"
        by (simp add: type_entry_snoc_other)
    qed
    ultimately show ?thesis using True by (simp add: a_id_type_entry)
  next
    case False
    have "\<forall>h \<in> set (group_add d gs). h = type_entry (a_id h) (ds @ [d])"
      using Cons.prems False by (intro Cons.IH) auto
    moreover have "g = type_entry (a_id g) (ds @ [d])"
      using g False by (simp add: type_entry_snoc_other)
    ultimately show ?thesis using False by simp
  qed
qed

lemma group_by_type_snoc: "group_by_type (ds @ [d]) = group_add d (group_by_type ds)"
  by (simp add: group_by_type_def)

lemma group_by_type_entries:
  "distinct (map a_id (group_by_type ds)) \<and>
   a_id ` set (group_by_type ds) = assetType ` set ds \<and>
   (\<forall>g \<in> set (group_by_type ds). g = type_entry (a_id g) ds)"
proof (induction ds rule: rev_induct)
  case Nil
  show ?case by (simp add: group_by_type_def)
next
  case (snoc d ds)
  then have "\<forall>g \<in> set (group_add d (group_by_type ds)). g = type_entry (a_id g) (ds @ [d])"
    by (intro group_add_entries) auto
  with snoc show ?case
    by (simp add: group_by_type_snoc distinct_group_add ids_group_add del: group_add.simps)
qed


lemma distinct_map_insert_desc:
  "distinct (map h (insert_desc f x xs)) \<longleftrightarrow> h x \<notin> h ` set xs \<and> distinct (map h xs)"
  by (induction xs) (auto simp: set_insert_desc)

lemma distinct_map_sort_desc: "distinct (map h (sort_desc f xs)) \<longleftrightarrow> distinct (map h xs)"
  by (induction xs) (auto simp: distinct_map_insert_desc set_sort_desc)

lemma getAllocationByType_grouped_sorted:
  fixes invs :: "doc list" and userId :: "oid option"
  defines "vis \<equiv> filter (matchStage userId) invs"
  defines "r \<equiv> getAllocationByType invs userId"
  shows "distinct (map a_id r)"
    and "a_id ` set r = assetType ` set vis"
    and "\<forall>g \<in> set r. g = type_entry (a_id g) vis"
    and "sorted_wrt (\<lambda>a b. a_totalCurrentValue b \<le> a_totalCurrentValue a) r"
  using group_by_type_entries [of vis]
  by (simp_all add: r_def getAllocationByType_def vis_def [symmetric]
      distinct_map_sort_desc set_sort_desc sorted_sort_desc)

lemma type_entry_populate: "type_entry t (map (populate us) ds) = type_entry t ds"
  by (simp add: type_entry_def filter_map o_def populate_fields)

lemma dashboard_allocation_grouped:
  fixes invs :: "doc list" and us :: "user list" and u :: user
  defines "act \<equiv> filter isActive invs"
  defines "r \<equiv> fst (snd (dashboard_handler us invs u))"
  shows "distinct (map a_id r)"
    and "a_id ` set r = assetType ` set act"
    and "\<forall>g \<in> set r. g = type_entry (a_id g) act"
proof -
  let ?ps = "map (populate us) act"
  have r: "r = group_by_type ?ps"
    by (simp add: r_def dashboard_handler_def act_def Let_def)
  have ids: "assetType ` set ?ps = assetType ` set act"
    by (simp add: image_image populate_fields)
  show "distinct (map a_id r)" using group_by_type_entries [of ?ps] r by simp
  show "a_id ` set r = assetType ` set act" using group_by_type_entries [of ?ps] r ids by simp
  show "\<forall>g \<in> set r. g = type_entry (a_id g) act"
    using group_by_type_entries [of ?ps] r by (simp add: type_entry_populate)
qed

text \<open>
  C7. Every allocation has one entry per asset type present, with the sums and the
  count of that type (the two lemmas above), and \<open>getAllocationByType\<close> returns the
  entries sorted by total current value descending. The allocation built by the
  dashboard route is not sorted: on the three investments of the dashboard test it
  lists Startup (120000), Crypto Fund (45000), Farmland (220000), the order in
  which the types are first met, where \<open>getAllocationByType\<close> on the same
  documents puts Farmland first.
\<close>

theorem dashboard_allocation_unsorted:
  "fst (snd (dashboard_handler sampleUsers sampleInvestments adminUser)) =
     [\<lparr>a_id = ''Startup'', a_totalInvested = 100000, a_totalCurrentValue = 120000, a_count = 1\<rparr>,
      \<lparr>a_id = ''Crypto Fund'', a_totalInvested = 50000, a_totalCurrentValue = 45000, a_count = 1\<rparr>,
      \<lparr>a_id = ''Farmland'', a_totalInvested = 200000, a_totalCurrentValue = 220000, a_count = 1\<rparr>] \<and>
   \<not> sorted_wrt (\<lambda>a b. a_totalCurrentValue b \<le> a_totalCurrentValue a)
       (fst (snd (dashboard_handler sampleUsers sampleInvestments adminUser))) \<and>
   getAllocationByType sampleInvestments None =
     [\<lparr>a_id = ''Farmland'', a_totalInvested = 200000, a_totalCurrentValue = 220000, a_count = 1\<rparr>,
      \<lparr>a_id = ''Startup'', a_totalInvested = 100000, a_totalCurrentValue = 120000, a_count = 1\<rparr>,
      \<lparr>a_id = ''Crypto Fund'', a_totalInvested = 50000, a_totalCurrentValue = 45000, a_count = 1\<rparr>]"
  by (simp add: dashboard_handler_def getAllocationByType_def group_by_type_def matchStage_def
      populate_def owner_doc_def Let_def sample_defs)

subsection \<open>Dashboard analytics\<close>

text \<open>The accumulated summary holds the sums over the fetched investments.\<close>

lemma dashboard_fold:
  "foldl (\<lambda>s i. s\<lparr>totalInvested := totalInvested s + investedAmount i,
                    totalCurrentValue := totalCurrentValue s + currentValue i,
                    totalGain := totalGain s + absoluteGain i\<rparr>) s xs =
   s\<lparr>totalInvested := totalInvested s + sum_list (map investedAmount xs),
     totalCurrentValue := totalCurrentValue s + sum_list (map currentValue xs),
     totalGain := totalGain s + sum_list (map absoluteGain xs)\<rparr>"
  by (induction xs arbitrary: s) (simp_all add: add.assoc)

lemma dashboard_summary_sums:
  "totalInvested (dashboard_summary xs) = sum_list (map investedAmount xs)"
  "totalCurrentValue (dashboard_summary xs) = sum_list (map currentValue xs)"
  "totalGain (dashboard_summary xs) = sum_list (map absoluteGain xs)"
  "investmentCount (dashboard_summary xs) = length xs"
  by (simp_all add: dashboard_summary_def dashboard_fold Let_def)

lemma dashboard_summary_roi:
  "totalRoi (dashboard_summary xs) =
     (if sum_list (map investedAmount xs) > 0
      then sum_list (map absoluteGain xs) / sum_list (map investedAmount xs) * 100 else 0)"
  by (simp add: dashboard_summary_def dashboard_fold Let_def)

lemma absoluteGain_populate: "absoluteGain (populate us d) = absoluteGain d"
  by (simp add: absoluteGain_def populate_fields)

lemma dashboard_summary_populate:
  "dashboard_summary (map (populate us) ds) = dashboard_summary ds"
  unfolding dashboard_summary_def dashboard_fold
  by (simp add: o_def populate_fields absoluteGain_populate)

text \<open>
  C10. \<open>GET /api/dashboard\<close> gives every authenticated actor the same result, and
  that result is computed over all active investments of the store, with no
  filter on ownership or role: the list is every active document; the summary
  holds the sums of invested amount, current value and gain over them, their
  number, and the return on the total; the allocation has one entry for each of
  their asset types, with the sums and the count of that type. A viewer who owns
  none of the investments receives what an admin receives.
\<close>

theorem dashboard_same_for_all_actors:
  assumes "authenticateToken us tok1 = Inr u1" and "authenticateToken us tok2 = Inr u2"
  shows "dashboard us invs tok1 = dashboard us invs tok2 \<and>
         (\<exists>s al. dashboard us invs tok1 = Inr (s, al, map (populate us) (filter isActive invs)) \<and>
            totalInvested s = sum_list (map investedAmount (filter isActive invs)) \<and>
            totalCurrentValue s = sum_list (map currentValue (filter isActive invs)) \<and>
            totalGain s =
              sum_list (map (\<lambda>d. currentValue d - investedAmount d) (filter isActive invs)) \<and>
            investmentCount s = length (filter isActive invs) \<and>
            totalRoi s = (if totalInvested s > 0 then totalGain s / totalInvested s * 100 else 0) \<and>
            distinct (map a_id al) \<and>
            a_id ` set al = assetType ` set (filter isActive invs) \<and>
            (\<forall>g \<in> set al. g = type_entry (a_id g) (filter isActive invs)))"
proof
  show "dashboard us invs tok1 = dashboard us invs tok2"
    using assms by (simp add: dashboard_def dashboard_handler_def Let_def)
next
  let ?act = "filter isActive invs"
  let ?s = "dashboard_summary ?act"
  let ?al = "fst (snd (dashboard_handler us invs u1))"
  have d: "dashboard us invs tok1 = Inr (?s, ?al, map (populate us) ?act)"
    using assms(1)
    by (simp add: dashboard_def dashboard_handler_def Let_def dashboard_summary_populate)
  have g: "absoluteGain = (\<lambda>d :: doc. currentValue d - investedAmount d)"
    by (rule ext) (simp add: absoluteGain_def)
  have s: "totalInvested ?s = sum_list (map investedAmount ?act)"
    "totalCurrentValue ?s = sum_list (map currentValue ?act)"
    "totalGain ?s = sum_list (map (\<lambda>d. currentValue d - investedAmount d) ?act)"
    "investmentCount ?s = length ?act"
    "totalRoi ?s = (if totalInvested ?s > 0 then totalGain ?s / totalInvested ?s * 100 else 0)"
    by (simp_all add: dashboard_summary_sums dashboard_summary_roi g)
  have a: "distinct (map a_id ?al)" "a_id ` set ?al = assetType ` set ?act"
    "\<forall>g \<in> set ?al. g = type_entry (a_id g) ?act"
    by (rule dashboard_allocation_grouped)+
  show "\<exists>s al. dashboard us invs tok1 = Inr (s, al, map (populate us) (filter isActive invs)) \<and>
            totalInvested s = sum_list (map investedAmount (filter isActive invs)) \<and>
            totalCurrentValue s = sum_list (map currentValue (filter isActive invs)) \<and>
            totalGain s =
              sum_list (map (\<lambda>d. currentValue d - investedAmount d) (filter isActive invs)) \<and>
            investmentCount s = length (filter isActive invs) \<and>
            totalRoi s = (if totalInvested s > 0 then totalGain s / totalInvested s * 100 else 0) \<and>
            distinct (map a_id al) \<and>
            a_id ` set al = assetType ` set (filter isActive invs) \<and>
            (\<forall>g \<in> set al. g = type_entry (a_id g) (filter isActive invs))"
    using d s a by blast
qed

theorem dashboard_same_for_all_actors_witness:
  "authenticateToken threeUsers (Some (user_id outsiderUser)) = Inr outsiderUser \<and>
   authenticateToken threeUsers (Some (user_id adminUser)) = Inr adminUser \<and>
   list_investments threeUsers sampleInvestments outsiderUser = [] \<and>
   dashboard threeUsers sampleInvestments (Some (user_id outsiderUser)) =
     dashboard threeUsers sampleInvestments (Some (user_id adminUser)) \<and>
   dashboard threeUsers sampleInvestments (Some (user_id outsiderUser)) =
     Inr (\<lparr>totalInvested = 350000, totalCurrentValue = 385000, totalGain = 35000,
            totalRoi = 10, investmentCount = 3\<rparr>,
          [\<lparr>a_id = ''Startup'', a_totalInvested = 100000, a_totalCurrentValue = 120000,
             a_count = 1\<rparr>,
           \<lparr>a_id = ''Crypto Fund'', a_totalInvested = 50000, a_totalCurrentValue = 45000,
             a_count = 1\<rparr>,
           \<lparr>a_id = ''Farmland'', a_totalInvested = 200000, a_totalCurrentValue = 220000,
             a_count = 1\<rparr>],
          map (populate threeUsers) sampleInvestments)"
proof -
  have a: "authenticateToken threeUsers (Some (user_id outsiderUser)) = Inr outsiderUser"
    by (simp add: authenticateToken_def threeUsers_def outsiderUser_def sample_defs)
  have b: "authenticateToken threeUsers (Some (user_id adminUser)) = Inr adminUser"
    by (simp add: authenticateToken_def threeUsers_def outsiderUser_def sample_defs)
  have c: "filter isActive sampleInvestments = sampleInvestments"
    by (simp add: sample_defs)
  have d: "list_investments threeUsers sampleInvestments outsiderUser = []"
    by (simp add: list_investments_def list_query_def outsiderUser_def sample_defs)
  from dashboard_same_for_all_actors [OF a b, of sampleInvestments]
  obtain s al where e: "dashboard threeUsers sampleInvestments (Some (user_id outsiderUser)) =
      dashboard threeUsers sampleInvestments (Some (user_id adminUser))"
    and f: "dashboard threeUsers sampleInvestments (Some (user_id outsiderUser)) =
      Inr (s, al, map (populate threeUsers) sampleInvestments)"
    and t: "totalInvested s = sum_list (map investedAmount sampleInvestments)"
      "totalCurrentValue s = sum_list (map currentValue sampleInvestments)"
      "totalGain s = sum_list (map (\<lambda>d. currentValue d - investedAmount d) sampleInvestments)"
      "investmentCount s = length sampleInvestments"
      "totalRoi s = (if totalInvested s > 0 then totalGain s / totalInvested s * 100 else 0)"
    unfolding c by blast
  have v: "sum_list (map investedAmount sampleInvestments) = 350000"
    "sum_list (map currentValue sampleInvestments) = 385000"
    "sum_list (map (\<lambda>d. currentValue d - investedAmount d) sampleInvestments) = 35000"
    "length sampleInvestments = 3"
    by (simp_all add: sample_defs)
  have s: "s = \<lparr>totalInvested = 350000, totalCurrentValue = 385000, totalGain = 35000,
            totalRoi = 10, investmentCount = 3\<rparr>"
    using t unfolding v by (cases s) simp
  have "al = fst (snd (dashboard_handler threeUsers sampleInvestments outsiderUser))"
    using f a by (simp add: dashboard_def dashboard_handler_def Let_def c)
  then have al: "al = [\<lparr>a_id = ''Startup'', a_totalInvested = 100000, a_totalCurrentValue = 120000,
             a_count = 1\<rparr>,
           \<lparr>a_id = ''Crypto Fund'', a_totalInvested = 50000, a_totalCurrentValue = 45000,
             a_count = 1\<rparr>,
           \<lparr>a_id = ''Farmland'', a_totalInvested = 200000, a_totalCurrentValue = 220000,
             a_count = 1\<rparr>]"
    by (simp add: dashboard_handler_def group_by_type_def populate_def owner_doc_def Let_def
        threeUsers_def outsiderUser_def sample_defs)
  show ?thesis using a b d e f unfolding s al by blast
qed

subsection \<open>Access checks of the id-addressed routes\<close>

lemma findById_None: "findById iid invs = None \<longleftrightarrow> iid \<notin> inv_id ` set invs"
  by (auto simp: findById_def find_None_iff)

lemma findById_Some: "findById iid invs = Some d \<Longrightarrow> d \<in> set invs \<and> inv_id d = iid"
  unfolding findById_def by (induction invs) (auto split: if_splits)

lemma canAccess_NotFound:
  "canAccessInvestment invs u pid = Inl NotFound \<longleftrightarrow>
     (\<exists>iid. pid = IdText iid \<and> iid \<notin> inv_id ` set invs)"
  by (cases pid)
     (auto simp: canAccessInvestment_def findById_None [symmetric] split: option.splits)

lemma canAccess_Forbidden:
  "canAccessInvestment invs u pid = Inl Forbidden \<longleftrightarrow>
     (\<exists>iid d. pid = IdText iid \<and> findById iid invs = Some d \<and> role u \<noteq> Admin \<and>
        user_id u \<notin> set (owners d))"
  by (cases pid) (auto simp: canAccessInvestment_def split: option.splits)

lemma canAccess_InternalError:
  "canAccessInvestment invs u pid = Inl InternalError \<longleftrightarrow> (\<exists>s. pid = NotAnId s)"
  by (cases pid) (auto simp: canAccessInvestment_def split: option.splits)

lemma canAccess_canUserModify:
  "canAccessInvestment invs u pid = Inr d \<longleftrightarrow>
     (\<exists>iid. pid = IdText iid \<and> findById iid invs = Some d \<and>
        canUserModify d (user_id u) (role u))"
  by (cases pid)
     (auto simp: canAccessInvestment_def canUserModify_def split: option.splits)

lemma get_error:
  "get_investment us invs u pid = Inl e \<longleftrightarrow> canAccessInvestment invs u pid = Inl e"
proof (cases "canAccessInvestment invs u pid")
  case (Inl e')
  then show ?thesis by (simp add: get_investment_def)
next
  case (Inr d)
  then obtain iid where "pid = IdText iid" "findById iid invs = Some d"
    by (auto simp: canAccess_canUserModify)
  with Inr show ?thesis by (simp add: get_investment_def)
qed

lemma delete_error:
  "soft_delete invs u pid now = Inl e \<longleftrightarrow> canAccessInvestment invs u pid = Inl e"
proof (cases "canAccessInvestment invs u pid")
  case (Inl e')
  then show ?thesis by (simp add: soft_delete_def)
next
  case (Inr d)
  then obtain iid where "pid = IdText iid"
    by (auto simp: canAccess_canUserModify)
  with Inr show ?thesis by (simp add: soft_delete_def)
qed

lemma update_access_error:
  "canAccessInvestment invs u pid = Inl e \<Longrightarrow> update_investment us invs u pid b now = Inl e"
  by (simp add: update_investment_def)

lemma update_after_access:
  assumes "canAccessInvestment invs u pid = Inr d"
  shows "update_investment us invs u pid b now \<noteq> Inl Forbidden"
    and "update_investment us invs u pid b now \<noteq> Inl NotFound"
  using assms
  by (auto simp: update_investment_def validateInvestmentAmount_def
      split: sum.splits option.splits prod.splits if_splits path_id.splits)

lemma update_access_only:
  assumes "e = NotFound \<or> e = Forbidden"
  shows "update_investment us invs u pid b now = Inl e \<longleftrightarrow> canAccessInvestment invs u pid = Inl e"
proof
  assume f: "update_investment us invs u pid b now = Inl e"
  show "canAccessInvestment invs u pid = Inl e"
  proof (cases "canAccessInvestment invs u pid")
    case (Inl e')
    with f show ?thesis by (simp add: update_investment_def)
  next
    case (Inr d)
    with f assms update_after_access [OF Inr, of us b now] show ?thesis by auto
  qed
next
  assume "canAccessInvestment invs u pid = Inl e"
  then show "update_investment us invs u pid b now = Inl e" by (rule update_access_error)
qed

text \<open>
  C9 (amended). For \<open>get\<close>, \<open>update\<close> and \<open>softDelete\<close>: the result is \<open>NotFound\<close>
  exactly when the id is an object id and no investment carries it, whoever the
  actor is; it is \<open>Forbidden\<close> exactly when the investment exists and the actor
  is neither an admin nor one of its owners, so existence is checked before
  authorization; and an id that is no object id makes the lookup throw, which
  all three routes answer with the internal error.
\<close>

theorem existence_before_authorization:
  "(get_investment us invs u pid = Inl NotFound \<longleftrightarrow>
      (\<exists>iid. pid = IdText iid \<and> iid \<notin> inv_id ` set invs)) \<and>
   (update_investment us invs u pid b now = Inl NotFound \<longleftrightarrow>
      (\<exists>iid. pid = IdText iid \<and> iid \<notin> inv_id ` set invs)) \<and>
   (soft_delete invs u pid now = Inl NotFound \<longleftrightarrow>
      (\<exists>iid. pid = IdText iid \<and> iid \<notin> inv_id ` set invs)) \<and>
   (get_investment us invs u pid = Inl Forbidden \<longleftrightarrow>
      (\<exists>d. pid = IdText (inv_id d) \<and> findById (inv_id d) invs = Some d \<and> role u \<noteq> Admin \<and>
         user_id u \<notin> set (owners d))) \<and>
   (update_investment us invs u pid b now = Inl Forbidden \<longleftrightarrow>
      (\<exists>d. pid = IdText (inv_id d) \<and> findById (inv_id d) invs = Some d \<and> role u \<noteq> Admin \<and>
         user_id u \<notin> set (owners d))) \<and>
   (soft_delete invs u pid now = Inl Forbidden \<longleftrightarrow>
      (\<exists>d. pid = IdText (inv_id d) \<and> findById (inv_id d) invs = Some d \<and> role u \<noteq> Admin \<and>
         user_id u \<notin> set (owners d))) \<and>
   get_investment us invs u (NotAnId s) = Inl InternalError \<and>
   update_investment us invs u (NotAnId s) b now = Inl InternalError \<and>
   soft_delete invs u (NotAnId s) now = Inl InternalError"
proof -
  have f: "canAccessInvestment invs u pid = Inl Forbidden \<longleftrightarrow>
      (\<exists>d. pid = IdText (inv_id d) \<and> findById (inv_id d) invs = Some d \<and> role u \<noteq> Admin \<and>
         user_id u \<notin> set (owners d))"
    unfolding canAccess_Forbidden using findById_Some by blast
  have i: "canAccessInvestment invs u (NotAnId s) = Inl InternalError"
    by (simp add: canAccess_InternalError)
  show ?thesis
    unfolding get_error delete_error update_access_only [of NotFound, simplified]
      update_access_only [of Forbidden, simplified] update_access_error [OF i]
    using f i by (simp add: canAccess_NotFound)
qed

theorem existence_before_authorization_witness:
  "''000000000000000000000009'' \<notin> inv_id ` set sampleInvestments \<and>
   get_investment threeUsers sampleInvestments outsiderUser (IdText ''000000000000000000000009'') =
     Inl NotFound \<and>
   update_investment threeUsers sampleInvestments outsiderUser
     (IdText ''000000000000000000000009'') validBody 0 = Inl NotFound \<and>
   soft_delete sampleInvestments outsiderUser (IdText ''000000000000000000000009'') 0 =
     Inl NotFound \<and>
   findById (inv_id startupA) sampleInvestments = Some startupA \<and>
   role outsiderUser \<noteq> Admin \<and> user_id outsiderUser \<notin> set (owners startupA) \<and>
   get_investment threeUsers sampleInvestments outsiderUser (IdText (inv_id startupA)) =
     Inl Forbidden \<and>
   update_investment threeUsers sampleInvestments outsiderUser (IdText (inv_id startupA))
     validBody 0 = Inl Forbidden \<and>
   soft_delete sampleInvestments outsiderUser (IdText (inv_id startupA)) 0 = Inl Forbidden \<and>
   param_id ''xyz'' = NotAnId ''xyz'' \<and>
   param_id (inv_id startupA) = IdText (inv_id startupA) \<and>
   get_investment threeUsers sampleInvestments outsiderUser (param_id ''xyz'') =
     Inl InternalError"
proof -
  have p: "param_id ''xyz'' = NotAnId ''xyz''"
    "param_id (inv_id startupA) = IdText (inv_id startupA)"
    by (simp_all add: param_id_def castObjectId_def hexLower_def isHexDigit_def sample_defs)
  have a: "''000000000000000000000009'' \<notin> inv_id ` set sampleInvestments"
    by (simp add: sample_defs)
  have c: "findById (inv_id startupA) sampleInvestments = Some startupA"
    by (simp add: findById_def sample_defs)
  have d: "role outsiderUser \<noteq> Admin" "user_id outsiderUser \<notin> set (owners startupA)"
    by (simp_all add: outsiderUser_def sample_defs)
  note t1 = existence_before_authorization
      [of threeUsers sampleInvestments outsiderUser "IdText ''000000000000000000000009''"
        validBody 0 "''xyz''"]
  note t2 = existence_before_authorization
      [of threeUsers sampleInvestments outsiderUser "IdText (inv_id startupA)" validBody 0
        "''xyz''"]
  from t1 a have n: "get_investment threeUsers sampleInvestments outsiderUser
      (IdText ''000000000000000000000009'') = Inl NotFound"
    "update_investment threeUsers sampleInvestments outsiderUser
      (IdText ''000000000000000000000009'') validBody 0 = Inl NotFound"
    "soft_delete sampleInvestments outsiderUser (IdText ''000000000000000000000009'') 0 =
      Inl NotFound"
    by blast+
  from t2 c d have f: "get_investment threeUsers sampleInvestments outsiderUser
      (IdText (inv_id startupA)) = Inl Forbidden"
    "update_investment threeUsers sampleInvestments outsiderUser (IdText (inv_id startupA))
      validBody 0 = Inl Forbidden"
    "soft_delete sampleInvestments outsiderUser (IdText (inv_id startupA)) 0 = Inl Forbidden"
    by blast+
  from t1 have e: "get_investment threeUsers sampleInvestments outsiderUser (param_id ''xyz'') =
     Inl InternalError" unfolding p by blast
  show ?thesis using a c d n f e p by blast
qed

theorem not_found_for_every_id_counterexample:
  "''xyz'' \<notin> inv_id ` set sampleInvestments \<and>
   get_investment sampleUsers sampleInvestments adminUser (param_id ''xyz'') =
     Inl InternalError \<and>
   get_investment sampleUsers sampleInvestments adminUser (param_id ''xyz'') \<noteq> Inl NotFound \<and>
   update_investment sampleUsers sampleInvestments adminUser (param_id ''xyz'') validBody 0 =
     Inl InternalError \<and>
   soft_delete sampleInvestments adminUser (param_id ''xyz'') 0 = Inl InternalError"
  by (simp add: get_investment_def update_investment_def soft_delete_def
      canAccessInvestment_def param_id_def castObjectId_def sample_defs)

subsection \<open>Creation and update\<close>

lemma owner_errors_empty: "owner_errors i os = [] \<longleftrightarrow> list_all isMongoId os"
  by (induction os arbitrary: i) auto

lemma validation_passes:
  assumes "investmentValidation b = []"
  shows "\<exists>an ty ia cv os.
           b_assetName b = Some an \<and> b_assetType b = Some ty \<and> b_investedAmount b = Some ia \<and>
           b_currentValue b = Some cv \<and> b_owners b = Some os \<and>
           1 \<le> length (trim an) \<and> length (trim an) \<le> 100 \<and> ty \<in> set assetTypes \<and>
           0 \<le> ia \<and> ia \<le> 1000000000 \<and> 0 \<le> cv \<and> cv \<le> 1000000000 \<and>
           os \<noteq> [] \<and> list_all isMongoId os \<and> b_investmentDate b \<noteq> Some NotIsoDate"
  using assms
  by (auto simp: investmentValidation_def isFloat_in_def owner_errors_empty
      split: option.splits if_splits)










lemma findByIdAndUpdate_fst:
  "fst (findByIdAndUpdate iid f invs) = map_option f (findById iid invs)"
  by (induction invs) (auto simp: findById_def split: prod.splits)

lemma findByIdAndUpdate_snd:
  "distinct (map inv_id invs) \<Longrightarrow>
     snd (findByIdAndUpdate iid f invs) = map (\<lambda>d. if inv_id d = iid then f d else d) invs"
proof (induction invs)
  case Nil
  show ?case by simp
next
  case (Cons d ds)
  show ?case
  proof (cases "inv_id d = iid")
    case True
    then have "\<forall>x \<in> set ds. inv_id x \<noteq> iid" using Cons.prems by (auto simp: image_iff)
    then have "map (\<lambda>d. if inv_id d = iid then f d else d) ds = ds"
      by (induction ds) auto
    with True show ?thesis by simp
  next
    case False
    with Cons show ?thesis by (auto split: prod.splits)
  qed
qed


lemma update_success:
  assumes "investmentValidation b = []"
    and "validateInvestmentAmount u b = Inr ()"
    and "canAccessInvestment invs u (IdText iid) = Inr d0"
    and "b_owners b = Some os" and "castObjectIds os = Some ids"
    and "length (ownerUsers us ids) = length os"
    and "role u = Admin \<or> user_id u \<in> set os"
    and "b_investedAmount b = Some ia"
    and "stored_date (b_investmentDate b) now = Some t"
  shows "\<exists>an ty cv. b_assetName b = Some an \<and> b_assetType b = Some ty \<and> b_currentValue b = Some cv \<and>
           update_investment us invs u (IdText iid) b now =
             Inr (Some (populate us (apply_update an ty ia cv t b ids now d0)),
                  snd (findByIdAndUpdate iid (apply_update an ty ia cv t b ids now) invs))"
proof -
  from validation_passes [OF assms(1)] obtain an ty cv where
    f: "b_assetName b = Some an" "b_assetType b = Some ty" "b_currentValue b = Some cv"
    using assms(4,8) by auto
  have g: "findById iid invs = Some d0"
    using assms(3) by (auto simp: canAccess_canUserModify)
  have "fst (findByIdAndUpdate iid (apply_update an ty ia cv t b ids now) invs) =
          Some (apply_update an ty ia cv t b ids now d0)"
    by (simp add: findByIdAndUpdate_fst g)
  then show ?thesis
    using assms f by (auto simp: update_investment_def split: prod.splits)
qed

lemmas body_defs = validBody_def largeBody_def hugeBody_def foreignLargeBody_def updateData_def
  foreignBody_def sharedBody_def noDateBody_def upperBody_def weekDateBody_def

lemmas validation_defs = investmentValidation_def isFloat_in_def optional_max_def trim_def
  is_space_def assetTypes_def isMongoId_def isHexadecimal_def isHexDigit_def

lemmas cast_defs = castObjectIds_def castObjectId_def hexLower_def




text \<open>
  The admin's success needs the date to cast: with a week date, which the field
  validation accepts, the save throws and nothing is stored.
\<close>

lemma create_week_date:
  "investmentValidation weekDateBody = [] \<and>
   create_investment sampleUsers sampleInvestments adminUser weekDateBody
     ''000000000000000000000004'' 0 = Inl InternalError \<and>
   update_investment sampleUsers sampleInvestments adminUser (IdText (inv_id cryptoB))
     weekDateBody 0 = Inl InternalError"
  by (simp add: create_investment_def update_investment_def canAccessInvestment_def
      findById_def validateInvestmentAmount_def ownerUsers_def stored_date_def
      body_defs validation_defs cast_defs sample_defs)






subsection \<open>Soft delete\<close>

lemma findById_mem:
  "distinct (map inv_id invs) \<Longrightarrow> x \<in> set invs \<Longrightarrow> findById (inv_id x) invs = Some x"
proof (induction invs)
  case Nil
  then show ?case by simp
next
  case (Cons d ds)
  show ?case
  proof (cases "x = d")
    case True
    then show ?thesis by (simp add: findById_def)
  next
    case False
    then have x: "x \<in> set ds" using Cons.prems by simp
    then have "inv_id x \<in> inv_id ` set ds" by (rule imageI)
    then have "inv_id d \<noteq> inv_id x" using Cons.prems(1) by auto
    moreover have "findById (inv_id x) ds = Some x" using Cons x by simp
    ultimately show ?thesis by (simp add: findById_def)
  qed
qed

lemma findById_map_update:
  assumes "\<And>d. inv_id (f d) = inv_id d"
  shows "findById iid (map (\<lambda>d. if inv_id d = iid then f d else d) invs) =
           map_option f (findById iid invs)"
proof (induction invs)
  case Nil
  show ?case by (simp add: findById_def)
next
  case (Cons d ds)
  then show ?case by (simp add: findById_def assms)
qed

lemma filter_match_mark_deleted:
  "filter (matchStage userId) (mark_deleted iid now invs) =
     filter (matchStage userId) (filter (\<lambda>d. inv_id d \<noteq> iid) invs)"
proof (induction invs)
  case Nil
  show ?case by (simp add: mark_deleted_def)
next
  case (Cons d ds)
  then show ?case by (simp add: mark_deleted_def matchStage_def)
qed

lemma list_query_mark_deleted:
  assumes "d \<in> set (mark_deleted iid now invs)" and "list_query a d"
  shows "inv_id d \<noteq> iid"
proof
  assume e: "inv_id d = iid"
  from assms(1) obtain d0 where "d0 \<in> set invs"
    and "d = (if inv_id d0 = iid then d0\<lparr>isActive := False, updatedAt := now\<rparr> else d0)"
    unfolding mark_deleted_def by auto
  with e have "\<not> isActive d" by (cases "inv_id d0 = iid") auto
  with assms(2) show False by (simp add: list_query_def)
qed

text \<open>
  C6. Let \<open>x\<close> be an investment of a store with unique ids, and the actor an admin
  or one of its owners. The soft delete succeeds and leaves the store with \<open>x\<close>
  marked inactive and nothing but \<open>isActive\<close> and \<open>updatedAt\<close> of \<open>x\<close> changed. In
  that store \<open>x\<close> is in no actor's listing, every actor's portfolio summary is
  the one of the store without \<open>x\<close>, and an admin's \<open>get\<close> still returns \<open>x\<close>,
  with \<open>isActive = False\<close>.
\<close>

theorem soft_delete_effect:
  assumes "distinct (map inv_id invs)" and "x \<in> set invs"
    and "role u = Admin \<or> user_id u \<in> set (owners x)"
  shows "soft_delete invs u (IdText (inv_id x)) now = Inr (mark_deleted (inv_id x) now invs) \<and>
         inv_id x \<notin> inv_id ` set (list_investments us (mark_deleted (inv_id x) now invs) a) \<and>
         portfolio_summary (mark_deleted (inv_id x) now invs) a =
           portfolio_summary (filter (\<lambda>d. inv_id d \<noteq> inv_id x) invs) a \<and>
         (role adm = Admin \<longrightarrow>
            get_investment us (mark_deleted (inv_id x) now invs) adm (IdText (inv_id x)) =
              Inr (populate us (x\<lparr>isActive := False, updatedAt := now\<rparr>)))"
proof (intro conjI impI)
  have f: "findById (inv_id x) invs = Some x" using assms(1,2) by (rule findById_mem)
  then have "canAccessInvestment invs u (IdText (inv_id x)) = Inr x"
    using assms(3) by (auto simp: canAccessInvestment_def)
  then show "soft_delete invs u (IdText (inv_id x)) now = Inr (mark_deleted (inv_id x) now invs)"
    using assms(1) by (simp add: soft_delete_def findByIdAndUpdate_snd mark_deleted_def)
  show "inv_id x \<notin> inv_id ` set (list_investments us (mark_deleted (inv_id x) now invs) a)"
  proof
    assume "inv_id x \<in> inv_id ` set (list_investments us (mark_deleted (inv_id x) now invs) a)"
    then obtain d where d: "d \<in> set (mark_deleted (inv_id x) now invs)" "list_query a d"
      "inv_id (populate us d) = inv_id x"
      by (auto simp: list_investments_def set_sort_desc)
    from d(3) have "inv_id d = inv_id x" by (simp add: populate_fields)
    with list_query_mark_deleted [OF d(1,2)] show False by simp
  qed
  show "portfolio_summary (mark_deleted (inv_id x) now invs) a =
           portfolio_summary (filter (\<lambda>d. inv_id d \<noteq> inv_id x) invs) a"
    by (simp add: portfolio_summary_def getPortfolioTotals_def getAllocationByType_def
        filter_match_mark_deleted Let_def)
  have g: "findById (inv_id x) (mark_deleted (inv_id x) now invs) =
             Some (x\<lparr>isActive := False, updatedAt := now\<rparr>)"
    unfolding mark_deleted_def by (subst findById_map_update) (simp_all add: f)
  assume "role adm = Admin"
  then show "get_investment us (mark_deleted (inv_id x) now invs) adm (IdText (inv_id x)) =
              Inr (populate us (x\<lparr>isActive := False, updatedAt := now\<rparr>))"
    using g by (simp add: get_investment_def canAccessInvestment_def)
qed

theorem soft_delete_effect_witness:
  "distinct (map inv_id sampleInvestments) \<and> cryptoB \<in> set sampleInvestments \<and>
   user_id viewerUser \<in> set (owners cryptoB) \<and> role adminUser = Admin \<and>
   soft_delete sampleInvestments viewerUser (IdText (inv_id cryptoB)) 1700000001000 =
     Inr [startupA, cryptoB\<lparr>isActive := False, updatedAt := 1700000001000\<rparr>, farmlandC] \<and>
   map inv_id (list_investments sampleUsers
      [startupA, cryptoB\<lparr>isActive := False, updatedAt := 1700000001000\<rparr>, farmlandC]
      viewerUser) = [''000000000000000000000003''] \<and>
   fst (portfolio_summary
      [startupA, cryptoB\<lparr>isActive := False, updatedAt := 1700000001000\<rparr>, farmlandC]
      viewerUser) =
     \<lparr>totalInvested = 200000, totalCurrentValue = 220000, totalGain = 20000, totalRoi = 10,
      investmentCount = 1\<rparr> \<and>
   get_investment sampleUsers
      [startupA, cryptoB\<lparr>isActive := False, updatedAt := 1700000001000\<rparr>, farmlandC]
      adminUser (IdText (inv_id cryptoB)) =
     Inr (populate sampleUsers (cryptoB\<lparr>isActive := False, updatedAt := 1700000001000\<rparr>))"
proof -
  have h: "distinct (map inv_id sampleInvestments)" "cryptoB \<in> set sampleInvestments"
    "role viewerUser = Admin \<or> user_id viewerUser \<in> set (owners cryptoB)"
    "role adminUser = Admin"
    by (simp_all add: sample_defs)
  have m: "mark_deleted (inv_id cryptoB) 1700000001000 sampleInvestments =
      [startupA, cryptoB\<lparr>isActive := False, updatedAt := 1700000001000\<rparr>, farmlandC]"
    by (simp add: mark_deleted_def sample_defs)
  have r: "filter (\<lambda>d. inv_id d \<noteq> inv_id cryptoB) sampleInvestments = [startupA, farmlandC]"
    by (simp add: sample_defs)
  have l: "map inv_id (list_investments sampleUsers
      [startupA, cryptoB\<lparr>isActive := False, updatedAt := 1700000001000\<rparr>, farmlandC]
      viewerUser) = [''000000000000000000000003'']"
    by (simp add: list_investments_def list_query_def populate_fields sample_defs)
  have p: "fst (portfolio_summary [startupA, farmlandC] viewerUser) =
     \<lparr>totalInvested = 200000, totalCurrentValue = 220000, totalGain = 20000, totalRoi = 10,
      investmentCount = 1\<rparr>"
    by (simp add: portfolio_summary_def getPortfolioTotals_def group_null_def matchStage_def
        Let_def sample_defs)
  note t = soft_delete_effect [OF h(1,2,3), of 1700000001000 sampleUsers viewerUser adminUser]
  show ?thesis using t h(1,2,4) l p unfolding m r by (simp add: sample_defs)
qed

subsection \<open>Update\<close>

text \<open>
  A successful update has validated the request body itself under the creation
  rules and has written the body's values over the stored document: name, type,
  amounts, owners and date come from the body (the date from the clock when the
  body has none), while the id, \<open>isActive\<close> and \<open>createdAt\<close> stay.
\<close>

lemma update_overwrites:
  assumes "update_investment us invs u pid b now = Inr (r, invs')"
  shows "\<exists>iid an ty ia cv os ids t d0.
           pid = IdText iid \<and>
           b_assetName b = Some an \<and> b_assetType b = Some ty \<and> b_investedAmount b = Some ia \<and>
           b_currentValue b = Some cv \<and> b_owners b = Some os \<and> investmentValidation b = [] \<and>
           castObjectIds os = Some ids \<and> stored_date (b_investmentDate b) now = Some t \<and>
           findById iid invs = Some d0 \<and>
           r = Some (populate us (apply_update an ty ia cv t b ids now d0)) \<and>
           invs' = snd (findByIdAndUpdate iid (apply_update an ty ia cv t b ids now) invs)"
proof -
  from assms obtain d0 where acc: "canAccessInvestment invs u pid = Inr d0"
    by (auto simp: update_investment_def split: sum.splits)
  then obtain iid where pid: "pid = IdText iid" and g: "findById iid invs = Some d0"
    by (auto simp: canAccess_canUserModify)
  from assms acc have cap: "validateInvestmentAmount u b = Inr ()"
    by (auto simp: update_investment_def split: sum.splits)
  from assms acc cap have val: "investmentValidation b = []"
    by (auto simp: update_investment_def split: if_splits)
  from validation_passes [OF val] obtain an ty ia cv os where
    f: "b_assetName b = Some an" "b_assetType b = Some ty" "b_investedAmount b = Some ia"
       "b_currentValue b = Some cv" "b_owners b = Some os"
    by blast
  from assms acc cap val f obtain ids where ids: "castObjectIds os = Some ids"
    by (auto simp: update_investment_def split: option.splits)
  from assms acc cap val f ids have len: "length (ownerUsers us ids) = length os"
    and own: "role u = Admin \<or> user_id u \<in> set os"
    by (auto simp: update_investment_def split: if_splits)
  from assms acc cap val f ids len own obtain t where
    t: "stored_date (b_investmentDate b) now = Some t"
    by (cases "stored_date (b_investmentDate b) now") (auto simp: update_investment_def)
  from update_success [OF val cap acc [unfolded pid] f(5) ids len own f(3) t] f assms pid
  have "r = Some (populate us (apply_update an ty ia cv t b ids now d0)) \<and>
        invs' = snd (findByIdAndUpdate iid (apply_update an ty ia cv t b ids now) invs)"
    by auto
  with f val g pid ids t show ?thesis by blast
qed

text \<open>
  C8. The update is specified to merge a partial body into the stored record,
  fields left out keeping their stored values. The route does not: the partial
  body of the repository's update test (a new name and current value only) is
  rejected by the field validation, which asks for every required field, and a
  complete body without a date moves the stored investment date to the time of
  the update.
\<close>

theorem update_rejects_partial_body:
  "update_investment sampleUsers sampleInvestments adminUser (IdText (inv_id startupA))
     updateData 1700000001000 =
       Inl (ValidationError [Field ''assetType'', Field ''investedAmount'', Field ''owners'']) \<and>
   investmentDate startupA = 1672531200000 \<and>
   map_sum id (\<lambda>r. map_option investmentDate (fst r))
     (update_investment sampleUsers sampleInvestments adminUser (IdText (inv_id startupA))
        noDateBody 1700000001000) = Inr (Some 1700000001000)"
  by (simp add: update_investment_def canAccessInvestment_def findById_def
      validateInvestmentAmount_def ownerUsers_def apply_update_def populate_fields
      stored_date_def body_defs validation_defs cast_defs sample_defs)

subsection \<open>Later requests\<close>

text \<open>
  No request reactivates a document: an update leaves \<open>isActive\<close> alone, a soft
  delete clears it, and a creation adds a document under a new id. A soft-deleted
  investment therefore stays out of every listing and every portfolio summary
  through any later sequence of requests that creates no document under its id.
\<close>

lemma findByIdAndUpdate_origin:
  assumes "d' \<in> set (snd (findByIdAndUpdate iid f invs))"
  shows "d' \<in> set invs \<or> (\<exists>d \<in> set invs. d' = f d)"
  using assms
proof (induction invs)
  case Nil
  then show ?case by simp
next
  case (Cons d ds)
  show ?case
  proof (cases "inv_id d = iid")
    case True
    with Cons.prems show ?thesis by auto
  next
    case False
    with Cons.prems have "d' = d \<or> d' \<in> set (snd (findByIdAndUpdate iid f ds))"
      by (auto split: prod.splits)
    with Cons.IH show ?thesis by auto
  qed
qed

lemma hidden_findByIdAndUpdate:
  assumes "hidden iid invs"
    and "\<And>d. inv_id (f d) = inv_id d" and "\<And>d. isActive (f d) \<Longrightarrow> isActive d"
  shows "hidden iid (snd (findByIdAndUpdate j f invs))"
  unfolding hidden_def list_all_iff
proof
  fix d' assume "d' \<in> set (snd (findByIdAndUpdate j f invs))"
  then consider "d' \<in> set invs" | d where "d \<in> set invs" "d' = f d"
    using findByIdAndUpdate_origin by blast
  then show "inv_id d' \<noteq> iid \<or> \<not> isActive d'"
  proof cases
    case 1
    then show ?thesis using assms(1) by (auto simp: hidden_def list_all_iff)
  next
    case 2
    then have "inv_id d \<noteq> iid \<or> \<not> isActive d"
      using assms(1) by (auto simp: hidden_def list_all_iff)
    then show ?thesis using 2 assms(2,3) by auto
  qed
qed

lemma hidden_step:
  assumes "hidden iid invs" and "creates r \<noteq> Some iid"
  shows "hidden iid (step us invs r)"
proof (cases r)
  case (Create u b nid now)
  show ?thesis
  proof (cases "create_investment us invs u b nid now")
    case (Inl e)
    then show ?thesis using assms Create by simp
  next
    case (Inr p)
    then obtain d where "snd p = invs @ [d]" "inv_id d = nid"
      by (auto simp: create_investment_def Let_def
          split: sum.splits if_splits option.splits prod.splits)
    then show ?thesis using assms Create Inr
      by (auto simp: hidden_def split: prod.splits)
  qed
next
  case (Update u pid b now)
  show ?thesis
  proof (cases "update_investment us invs u pid b now")
    case (Inl e)
    then show ?thesis using assms Update by simp
  next
    case (Inr p)
    obtain res invs' where p: "p = (res, invs')" by (cases p)
    from update_overwrites [OF Inr [unfolded p]] obtain j an ty ia cv ids t where
      "invs' = snd (findByIdAndUpdate j (apply_update an ty ia cv t b ids now) invs)"
      by blast
    moreover have "hidden iid (snd (findByIdAndUpdate j (apply_update an ty ia cv t b ids now) invs))"
      using assms(1) by (rule hidden_findByIdAndUpdate) (simp_all add: apply_update_def)
    ultimately show ?thesis using Update Inr p by simp
  qed
next
  case (Delete u pid now)
  show ?thesis
  proof (cases "soft_delete invs u pid now")
    case (Inl e)
    then show ?thesis using assms Delete by simp
  next
    case (Inr invs')
    then obtain j where
      "invs' = snd (findByIdAndUpdate j (\<lambda>d. d\<lparr>isActive := False, updatedAt := now\<rparr>) invs)"
      by (cases pid) (auto simp: soft_delete_def split: sum.splits)
    moreover have "hidden iid (snd (findByIdAndUpdate j (\<lambda>d. d\<lparr>isActive := False, updatedAt := now\<rparr>) invs))"
      using assms(1) by (rule hidden_findByIdAndUpdate) simp_all
    ultimately show ?thesis using Delete Inr by simp
  qed
qed

lemma hidden_run:
  "hidden iid invs \<Longrightarrow> list_all (\<lambda>r. creates r \<noteq> Some iid) rs \<Longrightarrow> hidden iid (run us invs rs)"
  unfolding run_def
  by (induction rs arbitrary: invs) (simp_all add: hidden_step)

lemma hidden_mark_deleted: "hidden iid (mark_deleted iid now invs)"
  by (induction invs) (simp_all add: hidden_def mark_deleted_def)

lemma hidden_list:
  assumes "hidden iid invs"
  shows "iid \<notin> inv_id ` set (list_investments us invs a)"
proof
  assume "iid \<in> inv_id ` set (list_investments us invs a)"
  then obtain d where d: "d \<in> set invs" "list_query a d" "inv_id (populate us d) = iid"
    by (auto simp: list_investments_def set_sort_desc)
  then have "inv_id d = iid" "isActive d" by (simp_all add: populate_fields list_query_def)
  with assms d(1) show False by (auto simp: hidden_def list_all_iff)
qed

lemma hidden_summary:
  assumes "hidden iid invs"
  shows "portfolio_summary invs a = portfolio_summary (filter (\<lambda>d. inv_id d \<noteq> iid) invs) a"
proof -
  have "filter (matchStage userId) invs =
          filter (matchStage userId) (filter (\<lambda>d. inv_id d \<noteq> iid) invs)" for userId
    using assms by (induction invs) (auto simp: hidden_def matchStage_def)
  then show ?thesis
    by (simp add: portfolio_summary_def getPortfolioTotals_def getAllocationByType_def Let_def)
qed

lemma soft_deleted_stays_hidden:
  assumes "list_all (\<lambda>r. creates r \<noteq> Some iid) rs"
  shows "iid \<notin> inv_id ` set (list_investments us (run us (mark_deleted iid now invs) rs) a)"
    and "portfolio_summary (run us (mark_deleted iid now invs) rs) a =
           portfolio_summary (filter (\<lambda>d. inv_id d \<noteq> iid) (run us (mark_deleted iid now invs) rs)) a"
  using hidden_run [OF hidden_mark_deleted assms] hidden_list hidden_summary by blast+

end
